theory Spec2Isabelle
  imports Complex_Main "HOL-Library.Word"
begin

section \<open>Image classification demo: preprocessing, softmax and top-K\<close>

text \<open>
  The repository holds two scripts, \<^verbatim>\<open>src/main.js\<close> and \<^verbatim>\<open>src/unnamed/part_000\<close>.
  Each defines its own \<^verbatim>\<open>imageDataToTensor\<close>, \<^verbatim>\<open>softmax\<close> and top-K selection
  (\<^verbatim>\<open>imagenetClassesTopK\<close> in main.js, \<^verbatim>\<open>getTopK\<close> in part_000).  Functions of
  part_000 whose name is also used by main.js carry the suffix \<open>_part_000\<close>.

  JavaScript numbers are modelled in exact arithmetic: a finite score or probability is a
  \<^typ>\<open>real\<close>, and \<^verbatim>\<open>Math.exp\<close> is the real exponential.  The functions below
  do not round their results to IEEE binary64 numbers (or to 32-bit floats in a
  \<^verbatim>\<open>Float32Array\<close>).  The rounding itself is defined apart, as \<open>round_binary64\<close>, and
  is used where the scripts' result differs from the exact one in kind: a sum that absorbs
  its smaller term, and an exponential that underflows to zero.
\<close>

subsection \<open>Errors\<close>

text \<open>
  The scripts contain no \<^verbatim>\<open>throw\<close> of their own.  The only exception that the modelled
  functions can raise is the \<^verbatim>\<open>TypeError\<close> of the language itself: from
  \<^verbatim>\<open>reduce\<close> on an empty array without initial value, and from reading a property of
  \<^verbatim>\<open>undefined\<close>.
\<close>

datatype js_error = TypeError

subsection \<open>Array helpers of the language\<close>

text \<open>\<^verbatim>\<open>xs.map((x, index) => f(x, index))\<close>: the callback receives the element and its index.\<close>

fun map_from :: "nat \<Rightarrow> ('a \<Rightarrow> nat \<Rightarrow> 'b) \<Rightarrow> 'a list \<Rightarrow> 'b list" where
  "map_from i f [] = []"
| "map_from i f (x # xs) = f x i # map_from (Suc i) f xs"

definition Array_map :: "('a \<Rightarrow> nat \<Rightarrow> 'b) \<Rightarrow> 'a list \<Rightarrow> 'b list" where
  "Array_map f xs = map_from 0 f xs"

text \<open>
  \<^verbatim>\<open>xs.reduce(f)\<close> without an initial value: the first element starts the accumulator and
  the rest is folded from the left; on an empty array it throws a \<^verbatim>\<open>TypeError\<close>.
\<close>

fun reduce :: "('a \<Rightarrow> 'a \<Rightarrow> 'a) \<Rightarrow> 'a list \<Rightarrow> js_error + 'a" where
  "reduce f [] = Inl TypeError"
| "reduce f (x # xs) = Inr (foldl f x xs)"

text \<open>\<^verbatim>\<open>Math.max(x, ...xs)\<close> with at least one argument.\<close>

definition Math_max :: "real \<Rightarrow> real list \<Rightarrow> real" where
  "Math_max x xs = foldl max x xs"

subsection \<open>Softmax\<close>

text \<open>
  \<^verbatim>\<open>softmax\<close> of main.js (lines 73 to 87).  On the empty array \<^verbatim>\<open>Math.max()\<close> is
  \<^verbatim>\<open>-Infinity\<close>, which is bound but never read, since the first \<^verbatim>\<open>map\<close> runs its
  callback on no element; the \<^verbatim>\<open>reduce\<close> then throws.  The last \<^verbatim>\<open>map\<close> passes an
  index that the callback does not use.  Differences, exponentials, sums and quotients are
  the exact ones.
\<close>

definition softmax :: "real list \<Rightarrow> js_error + real list" where
  "softmax resultArray =
     (case resultArray of
        [] \<Rightarrow> (case reduce (+) ([] :: real list) of
                 Inl e \<Rightarrow> Inl e
               | Inr sumOfExp \<Rightarrow> Inr [])
      | r # rs \<Rightarrow>
          (let largestNumber = Math_max r rs in
           case reduce (+) (map (\<lambda>resultItem. exp (resultItem - largestNumber)) resultArray) of
             Inl e \<Rightarrow> Inl e
           | Inr sumOfExp \<Rightarrow>
               Inr (Array_map (\<lambda>resultValue index. exp (resultValue - largestNumber) / sumOfExp)
                      resultArray)))"

text \<open>\<^verbatim>\<open>softmax\<close> of part_000 (lines 160 to 169); its last callback takes the value only.\<close>

definition softmax_part_000 :: "real list \<Rightarrow> js_error + real list" where
  "softmax_part_000 resultArray =
     (case resultArray of
        [] \<Rightarrow> (case reduce (+) ([] :: real list) of
                 Inl e \<Rightarrow> Inl e
               | Inr sumOfExp \<Rightarrow> Inr [])
      | r # rs \<Rightarrow>
          (let largestNumber = Math_max r rs in
           case reduce (+) (map (\<lambda>resultItem. exp (resultItem - largestNumber)) resultArray) of
             Inl e \<Rightarrow> Inl e
           | Inr sumOfExp \<Rightarrow>
               Inr (map (\<lambda>resultValue. exp (resultValue - largestNumber) / sumOfExp)
                      resultArray)))"

subsection \<open>Rounding to binary64\<close>

text \<open>
  The numbers of the scripts are IEEE 754 binary64 numbers, and each operation of the
  language returns the exact result rounded to such a number.
\<close>

text \<open>The nearest integer, the even one of the two when \<open>y\<close> lies half-way.\<close>

definition round_half_even :: "real \<Rightarrow> int" where
  "round_half_even y =
     (let f = \<lfloor>y\<rfloor> in
      if y - of_int f < 1 / 2 then f
      else if 1 / 2 < y - of_int f then f + 1
      else if even f then f else f + 1)"

text \<open>
  The binary exponent of a positive number: the \<open>e\<close> with \<open>2 ^ e \<le> y < 2 ^ (e + 1)\<close>,
  found by halving a number from 1 on and by doubling a number below 1.  It is never
  taken below \<open>-1022\<close>, the exponent of the subnormal numbers.
\<close>

function exponent_up :: "real \<Rightarrow> int \<Rightarrow> int" where
  "exponent_up y e = (if 2 \<le> y then exponent_up (y / 2) (e + 1) else e)"
  by pat_completeness auto
termination
proof (relation "measure (\<lambda>(y, e). nat \<lceil>y\<rceil>)")
  show "wf (measure (\<lambda>(y :: real, e :: int). nat \<lceil>y\<rceil>))" by simp
next
  fix y :: real and e :: int
  assume "2 \<le> y"
  then have "\<lceil>y / 2\<rceil> < \<lceil>y\<rceil>" by linarith
  moreover have "0 < \<lceil>y\<rceil>" using \<open>2 \<le> y\<close> by linarith
  ultimately show "((y / 2, e + 1), (y, e)) \<in> measure (\<lambda>(y, e). nat \<lceil>y\<rceil>)" by simp
qed

function exponent_down :: "real \<Rightarrow> int \<Rightarrow> int" where
  "exponent_down y e = (if y < 1 \<and> - 1022 < e then exponent_down (y * 2) (e - 1) else e)"
  by pat_completeness auto
termination
  by (relation "measure (\<lambda>(y, e). nat (e + 1022))") auto

declare exponent_up.simps [simp del] exponent_down.simps [simp del]

definition binary64_exponent :: "real \<Rightarrow> int" where
  "binary64_exponent x = (if 1 \<le> \<bar>x\<bar> then exponent_up \<bar>x\<bar> 0 else exponent_down \<bar>x\<bar> 0)"

text \<open>
  Rounding to binary64, to nearest, ties to even: numbers with exponent \<open>e\<close> are
  \<open>2 ^ (e - 52)\<close> apart (53 significant bits).  \<open>None\<close> stands for the overflow to an
  infinity.
\<close>

definition round_binary64 :: "real \<Rightarrow> real option" where
  "round_binary64 x =
     (if x = 0 then Some 0
      else
        let quantum = 2 powi (binary64_exponent x - 52);
            r = of_int (round_half_even (x / quantum)) * quantum
        in if \<bar>r\<bar> < 2 ^ 1024 then Some r else None)"

text \<open>The operator \<^verbatim>\<open>+\<close> of the language on two finite numbers.\<close>

definition binary64_add :: "real \<Rightarrow> real \<Rightarrow> real option" where
  "binary64_add x y = round_binary64 (x + y)"

subsection \<open>Preprocessor\<close>

text \<open>
  A pixel buffer holds unsigned 8-bit channel values.  Reading an array beyond its end
  gives \<^verbatim>\<open>undefined\<close>, and \<^verbatim>\<open>undefined / 255.0\<close> is \<^verbatim>\<open>NaN\<close>, so an element of the
  \<^verbatim>\<open>Float32Array\<close> is either \<^verbatim>\<open>NaN\<close> or a number.
\<close>

datatype jsnum = NaN | Num real

record image =
  data :: "8 word list"
  width :: nat
  height :: nat

text \<open>The three properties of an \<^verbatim>\<open>ort.Tensor\<close> that the constructor call sets.\<close>

record tensor =
  tensor_type :: string
  tensor_data :: "jsnum list"
  dims :: "nat list"

text \<open>\<^verbatim>\<open>xs[j]\<close>: \<open>None\<close> is \<^verbatim>\<open>undefined\<close>.\<close>

definition read_index :: "'a list \<Rightarrow> nat \<Rightarrow> 'a option" where
  "read_index xs j = (if j < length xs then Some (xs ! j) else None)"

text \<open>\<^verbatim>\<open>v / 255.0\<close> for a value read from the buffer.\<close>

definition div_255 :: "8 word option \<Rightarrow> jsnum" where
  "div_255 v = (case v of None \<Rightarrow> NaN | Some b \<Rightarrow> Num (real (unat b) / 255))"

text \<open>\<^verbatim>\<open>new Float32Array(n)\<close> is filled with zeros.\<close>

definition Float32Array :: "nat \<Rightarrow> jsnum list" where
  "Float32Array n = replicate n (Num 0)"

text \<open>
  The \<^verbatim>\<open>for\<close> loop, which is the same in both scripts (main.js lines 27 to 32, part_000
  lines 118 to 122): \<open>i\<close> is the loop counter and \<open>float32Data\<close> the array being filled.
  An assignment to a typed array never extends it, as \<open>xs[j := v]\<close> never extends a list.
\<close>

function convert_pixels :: "8 word list \<Rightarrow> nat \<Rightarrow> nat \<Rightarrow> jsnum list \<Rightarrow> jsnum list" where
  "convert_pixels imageBufferData pixelCount i float32Data =
     (if i < pixelCount then
        convert_pixels imageBufferData pixelCount (i + 1)
          (float32Data
             [pixelCount * 0 + i := div_255 (read_index imageBufferData (i * 4 + 0)),
              pixelCount * 1 + i := div_255 (read_index imageBufferData (i * 4 + 1)),
              pixelCount * 2 + i := div_255 (read_index imageBufferData (i * 4 + 2))])
      else float32Data)"
  by pat_completeness auto
termination
  by (relation "measure (\<lambda>(imageBufferData, pixelCount, i, float32Data). pixelCount - i)") auto

declare convert_pixels.simps [simp del]

text \<open>
  \<^verbatim>\<open>imageDataToTensor\<close> of main.js (lines 20 to 36); its parameter \<^verbatim>\<open>image\<close> is
  written \<open>image'\<close>.
\<close>

definition imageDataToTensor :: "image \<Rightarrow> tensor" where
  "imageDataToTensor image' =
     (let imageBufferData = data image';
          pixelCount = width image' * height image';
          float32Data = convert_pixels imageBufferData pixelCount 0 (Float32Array (3 * pixelCount));
          dimensions = [1, 3, height image', width image']
      in \<lparr>tensor_type = ''float32'', tensor_data = float32Data, dims = dimensions\<rparr>)"

text \<open>
  \<^verbatim>\<open>imageDataToTensor\<close> of part_000 (lines 110 to 126).  Its \<^verbatim>\<open>resizeImageData\<close> is made
  of calls to the browser's canvas only, whose resampling the script does not fix, so it is a
  parameter here: the function that maps the image and the target size to the
  \<^verbatim>\<open>data\<close> of the redrawn canvas.
\<close>

definition imageDataToTensor_part_000 ::
    "(image \<Rightarrow> nat \<Rightarrow> nat \<Rightarrow> 8 word list) \<Rightarrow> image \<Rightarrow> nat \<Rightarrow> nat \<Rightarrow> tensor" where
  "imageDataToTensor_part_000 resizeImageData imageData targetWidth targetHeight =
     (let resizedData = resizeImageData imageData targetWidth targetHeight;
          pixelCount = targetWidth * targetHeight;
          float32Data = convert_pixels resizedData pixelCount 0 (Float32Array (3 * pixelCount));
          dimensions = [1, 3, targetHeight, targetWidth]
      in \<lparr>tensor_type = ''float32'', tensor_data = float32Data, dims = dimensions\<rparr>)"

subsection \<open>Top-K selection\<close>

text \<open>The table \<^verbatim>\<open>imagenetClasses\<close> of part_000 (lines 2 to 9): twenty pairs of id and name.\<close>

definition imagenetClasses :: "(nat \<times> string) list" where
  "imagenetClasses =
     [(0, ''tench''), (1, ''goldfish''), (2, ''great_white_shark''), (3, ''tiger_shark''),
      (4, ''hammerhead''), (5, ''electric_ray''), (6, ''stingray''), (7, ''cock''),
      (8, ''hen''), (9, ''ostrich''), (10, ''brambling''), (11, ''goldfinch''),
      (12, ''house_finch''), (13, ''junco''), (14, ''indigo_bunting''), (15, ''robin''),
      (16, ''bulbul''), (17, ''jay''), (18, ''magpie''), (19, ''chickadee'')]"

text \<open>\<^verbatim>\<open>s.replace(/_/g, ' ')\<close>: every underscore becomes a space.\<close>

definition replace_underscores :: "string \<Rightarrow> string" where
  "replace_underscores s = map (\<lambda>ch. if ch = CHR ''_'' then CHR '' '' else ch) s"

text \<open>The decimal digits that a template literal writes for an array index.\<close>

fun toString :: "nat \<Rightarrow> string" where
  "toString n =
     (if n < 10 then [''0123456789'' ! n]
      else toString (n div 10) @ [''0123456789'' ! (n mod 10)])"

declare toString.simps [simp del]

text \<open>
  \<^verbatim>\<open>xs.sort(compareFn)\<close>.  The sort of the language is stable: \<open>a\<close> comes before \<open>b\<close>
  when \<open>compareFn a b\<close> is negative, and elements that compare as equal keep their order.
  For a comparator that orders by one key, as both scripts use, these two rules fix the
  result; it is computed here by inserting the elements one by one, from the last to the
  first, each in front of the first element that it does not have to follow.
\<close>

fun insert_sorted :: "('a \<Rightarrow> 'a \<Rightarrow> real) \<Rightarrow> 'a \<Rightarrow> 'a list \<Rightarrow> 'a list" where
  "insert_sorted compareFn a [] = [a]"
| "insert_sorted compareFn a (b # bs) =
     (if compareFn a b \<le> 0 then a # b # bs else b # insert_sorted compareFn a bs)"

definition Array_sort :: "('a \<Rightarrow> 'a \<Rightarrow> real) \<Rightarrow> 'a list \<Rightarrow> 'a list" where
  "Array_sort compareFn xs = foldr (insert_sorted compareFn) xs []"

text \<open>
  \<^verbatim>\<open>xs.slice(0, end)\<close>: a negative \<open>end\<close> counts from the end of the array, and the
  result never goes beyond the array.
\<close>

definition slice0 :: "'a list \<Rightarrow> int \<Rightarrow> 'a list" where
  "slice0 xs end =
     (if end < 0 then take (nat (int (length xs) + end)) xs else take (nat end) xs)"

text \<open>
  The three functions of the lodash library that main.js calls: \<^verbatim>\<open>_.sortBy\<close> is a stable
  sort in ascending order of the value of the iteratee, \<^verbatim>\<open>_.reverse\<close> reverses, and
  \<^verbatim>\<open>_.take(xs, n)\<close> is the first \<open>n\<close> elements, none when \<open>n\<close> is negative.
\<close>

definition sortBy :: "'a list \<Rightarrow> ('a \<Rightarrow> real) \<Rightarrow> 'a list" where
  "sortBy collection iteratee = Array_sort (\<lambda>a b. iteratee a - iteratee b) collection"

definition reverse :: "'a list \<Rightarrow> 'a list" where
  "reverse xs = rev xs"

definition take_lodash :: "'a list \<Rightarrow> int \<Rightarrow> 'a list" where
  "take_lodash xs n = take (nat n) xs"

text \<open>
  The objects returned.  \<^verbatim>\<open>getTopK\<close> builds \<^verbatim>\<open>{id, name, probability}\<close>;
  \<^verbatim>\<open>imagenetClassesTopK\<close> builds the same three properties and \<^verbatim>\<open>index\<close>.  The
  property \<^verbatim>\<open>id\<close> is written \<open>id'\<close>.
\<close>

record 'i prediction =
  id' :: 'i
  name :: string
  probability :: real

record 'i indexed_prediction = "'i prediction" +
  index :: nat

text \<open>\<^verbatim>\<open>xs.map(f)\<close> with a callback that can throw: the first exception ends the call.\<close>

fun map_throwing :: "('a \<Rightarrow> js_error + 'b) \<Rightarrow> 'a list \<Rightarrow> js_error + 'b list" where
  "map_throwing f [] = Inr []"
| "map_throwing f (x # xs) =
     (case f x of
        Inl e \<Rightarrow> Inl e
      | Inr y \<Rightarrow> (case map_throwing f xs of Inl e \<Rightarrow> Inl e | Inr ys \<Rightarrow> Inr (y # ys)))"

text \<open>
  \<^verbatim>\<open>imagenetClassesTopK\<close> of main.js (lines 89 to 111).  main.js reads a global
  \<^verbatim>\<open>imagenetClasses\<close> that it does not define; the table is the parameter \<open>classes\<close>,
  which maps an index to the pair found there, if any.  \<^verbatim>\<open>_.isTypedArray\<close> only decides
  whether the probabilities are copied into a plain array.  The default \<open>k = 5\<close> of both
  scripts stands for an argument that the caller leaves out; here \<open>k\<close> is always given.
  Reading \<^verbatim>\<open>iClass[0]\<close> when
  \<^verbatim>\<open>iClass\<close> is \<^verbatim>\<open>undefined\<close> throws a \<^verbatim>\<open>TypeError\<close>.  \<^verbatim>\<open>parseInt\<close> of the decimal
  digits of an index is that index.
\<close>

definition imagenetClassesTopK ::
    "(nat \<Rightarrow> ('i \<times> string) option) \<Rightarrow> real list \<Rightarrow> int \<Rightarrow> js_error + 'i indexed_prediction list" where
  "imagenetClassesTopK classes classProbabilities k =
     (let probs = classProbabilities;
          sorted = reverse (sortBy (Array_map (\<lambda>prob index. (prob, index)) probs)
                     (\<lambda>probIndex. fst probIndex))
      in map_throwing
           (\<lambda>probIndex.
              case classes (snd probIndex) of
                None \<Rightarrow> Inl TypeError
              | Some iClass \<Rightarrow>
                  Inr \<lparr>id' = fst iClass,
                       name = replace_underscores (snd iClass),
                       probability = fst probIndex,
                       index = snd probIndex\<rparr>)
           (take_lodash sorted k))"

text \<open>
  \<^verbatim>\<open>getTopK\<close> of part_000 (lines 171 to 187).  An entry of the table, being an array, is
  truthy whenever it is there.
\<close>

definition getTopK :: "real list \<Rightarrow> int \<Rightarrow> nat prediction list" where
  "getTopK classProbabilities k =
     (let probs = classProbabilities;
          sorted = slice0 (Array_sort (\<lambda>a b. fst b - fst a)
                             (Array_map (\<lambda>prob index. (prob, index)) probs)) k
      in map (\<lambda>(prob, index).
                let className = (case read_index imagenetClasses index of
                                   Some entry \<Rightarrow> snd entry
                                 | None \<Rightarrow> ''class_'' @ toString index)
                in \<lparr>id' = index, name = replace_underscores className, probability = prob\<rparr>)
           sorted)"

section \<open>Properties\<close>

subsection \<open>Array helpers\<close>

lemma map_from_conv_map: "map_from i (\<lambda>x j. g x) xs = map g xs"
  by (induction xs arbitrary: i) simp_all

lemma length_map_from [simp]: "length (map_from i f xs) = length xs"
  by (induction xs arbitrary: i) simp_all

lemma nth_map_from: "n < length xs \<Longrightarrow> map_from i f xs ! n = f (xs ! n) (i + n)"
proof (induction xs arbitrary: i n)
  case Nil
  then show ?case by simp
next
  case (Cons x xs)
  then show ?case by (cases n) simp_all
qed

lemma foldl_max_eq_Max: "foldl max (x :: real) xs = Max (set (x # xs))"
proof (induction xs arbitrary: x)
  case Nil
  show ?case by simp
next
  case (Cons y ys)
  have "foldl max x (y # ys) = Max (set (max x y # ys))"
    using Cons.IH [of "max x y"] by simp
  also have "\<dots> = Max (set (x # y # ys))"
    by (cases "set ys = {}") (simp_all add: max.assoc)
  finally show ?case .
qed

lemma foldl_plus_sum_list: "foldl (+) (x :: real) xs = x + sum_list xs"
  by (induction xs arbitrary: x) (simp_all add: add.assoc)

subsection \<open>Preprocessor\<close>

text \<open>
  The loop keeps the length of the array; after it, every position of a pixel that the
  counter has passed holds the quotient of the channel read for it, and the three planes
  follow each other.
\<close>

lemma length_convert_pixels [simp]:
  "length (convert_pixels buf n i f) = length f"
proof (induction buf n i f rule: convert_pixels.induct)
  case (1 buf n i f)
  show ?case
  proof (cases "i < n")
    case True
    with "1" show ?thesis by (subst convert_pixels.simps) simp
  next
    case False
    then show ?thesis by (subst convert_pixels.simps) simp
  qed
qed

lemma convert_pixels_nth:
  assumes "length f = 3 * n" and "c < 3" and "j < n"
  shows "convert_pixels buf n i f ! (n * c + j) =
           (if i \<le> j then div_255 (read_index buf (j * 4 + c)) else f ! (n * c + j))"
  using assms
proof (induction buf n i f rule: convert_pixels.induct)
  case (1 buf n i f)
  from \<open>c < 3\<close> consider "c = 0" | "c = 1" | "c = 2" by linarith
  note c_cases = this
  show ?case
  proof (cases "i < n")
    case False
    with \<open>j < n\<close> show ?thesis by (subst convert_pixels.simps) simp
  next
    case True
    let ?f = "f[n * 0 + i := div_255 (read_index buf (i * 4 + 0)),
                n * 1 + i := div_255 (read_index buf (i * 4 + 1)),
                n * 2 + i := div_255 (read_index buf (i * 4 + 2))]"
    have step: "convert_pixels buf n i f = convert_pixels buf n (i + 1) ?f"
      using True by (subst convert_pixels.simps) simp
    have len: "length ?f = 3 * n" using "1.prems" by simp
    have IH: "convert_pixels buf n (i + 1) ?f ! (n * c + j) =
           (if i + 1 \<le> j then div_255 (read_index buf (j * 4 + c)) else ?f ! (n * c + j))"
      using "1.IH" [OF True len \<open>c < 3\<close> \<open>j < n\<close>] .
    have upd: "?f ! (n * c + j) = (if j = i then div_255 (read_index buf (j * 4 + c)) else f ! (n * c + j))"
      using c_cases True \<open>j < n\<close> \<open>length f = 3 * n\<close>
      by cases (auto simp: nth_list_update)
    show ?thesis
      unfolding step IH upd by auto
  qed
qed


lemma convert_pixels_planes:
  "convert_pixels buf n 0 (Float32Array (3 * n)) =
     map (\<lambda>j. div_255 (read_index buf (j * 4 + 0))) [0..<n] @
     map (\<lambda>j. div_255 (read_index buf (j * 4 + 1))) [0..<n] @
     map (\<lambda>j. div_255 (read_index buf (j * 4 + 2))) [0..<n]"
  (is "?l = ?r")
proof (rule nth_equalityI)
  show "length ?l = length ?r" by (simp add: Float32Array_def)
next
  fix k assume "k < length ?l"
  then have k: "k < 3 * n" by (simp add: Float32Array_def)
  have len: "length (Float32Array (3 * n)) = 3 * n" by (simp add: Float32Array_def)
  consider "k < n" | "n \<le> k" "k < 2 * n" | "2 * n \<le> k" by linarith
  then show "?l ! k = ?r ! k"
  proof cases
    case 1
    with convert_pixels_nth [OF len, of 0 k buf 0] show ?thesis
      by (simp add: nth_append)
  next
    case 2
    then obtain j where kj: "k = n + j" and j: "j < n"
      using le_Suc_ex [of n k] by auto
    have idx: "n * 1 + j = k" by (simp add: kj)
    have "?r ! k = div_255 (read_index buf (j * 4 + 1))"
      using j by (simp add: nth_append kj)
    moreover have "?l ! k = div_255 (read_index buf (j * 4 + 1))"
      using convert_pixels_nth [OF len, of 1 j buf 0] j unfolding idx by simp
    ultimately show ?thesis by simp
  next
    case 3
    then obtain j where kj: "k = n + (n + j)" and j: "j < n"
      using le_Suc_ex [of "2 * n" k] k by auto
    have idx: "n * 2 + j = k" by (simp add: kj)
    have "?r ! k = div_255 (read_index buf (j * 4 + 2))"
      using j by (simp add: nth_append kj)
    moreover have "?l ! k = div_255 (read_index buf (j * 4 + 2))"
      using convert_pixels_nth [OF len, of 2 j buf 0] j unfolding idx by simp
    ultimately show ?thesis by simp
  qed
qed

lemma tensor_data_imageDataToTensor:
  "tensor_data (imageDataToTensor image') =
     convert_pixels (data image') (width image' * height image') 0
       (Float32Array (3 * (width image' * height image')))"
  by (simp add: imageDataToTensor_def Let_def)

lemma Float32Array_length: "length (Float32Array n) = n"
  by (simp add: Float32Array_def)

text \<open>
  Claim C4.  When the buffer holds exactly \<open>pixelCount\<close> RGBA pixels, the tensor has
  \<open>3 * pixelCount\<close> values in planar layout: position \<open>0 * pixelCount + i\<close> holds
  \<open>red\<^sub>i / 255\<close>, position \<open>1 * pixelCount + i\<close> holds \<open>green\<^sub>i / 255\<close>, position
  \<open>2 * pixelCount + i\<close> holds \<open>blue\<^sub>i / 255\<close>, and no alpha value is read.  In main.js
  the buffer is \<^verbatim>\<open>image.data\<close>; the 2 by 2 buffer of the specification yields
  \<open>[1,0,0,1, 0,1,0,1, 0,0,1,1]\<close>.  In part_000 the buffer is the one that the canvas
  returns for the target size, whatever the canvas has done to the pixels of the image;
  nothing is assumed of \<open>resizeImageData\<close> but the length of its result.
\<close>

theorem imageDataToTensor_planar:
  assumes "length (data image') = 4 * (width image' * height image')"
    and "i < width image' * height image'"
    and "length (resizeImageData imageData targetWidth targetHeight)
           = 4 * (targetWidth * targetHeight)"
    and "j < targetWidth * targetHeight"
  shows "length (tensor_data (imageDataToTensor image')) = 3 * (width image' * height image')
    \<and> tensor_data (imageDataToTensor image') ! (0 * (width image' * height image') + i)
        = Num (real (unat (data image' ! (4 * i + 0))) / 255)
    \<and> tensor_data (imageDataToTensor image') ! (1 * (width image' * height image') + i)
        = Num (real (unat (data image' ! (4 * i + 1))) / 255)
    \<and> tensor_data (imageDataToTensor image') ! (2 * (width image' * height image') + i)
        = Num (real (unat (data image' ! (4 * i + 2))) / 255)
    \<and> dims (imageDataToTensor image') = [1, 3, height image', width image']
    \<and> tensor_data (imageDataToTensor
          \<lparr>data = [255, 0, 0, 255, 0, 255, 0, 255, 0, 0, 255, 255, 255, 255, 255, 255],
           width = 2, height = 2\<rparr>)
        = [Num 1, Num 0, Num 0, Num 1, Num 0, Num 1, Num 0, Num 1, Num 0, Num 0, Num 1, Num 1]
    \<and> length (tensor_data
          (imageDataToTensor_part_000 resizeImageData imageData targetWidth targetHeight))
        = 3 * (targetWidth * targetHeight)
    \<and> tensor_data (imageDataToTensor_part_000 resizeImageData imageData targetWidth targetHeight)
          ! (0 * (targetWidth * targetHeight) + j)
        = Num (real (unat (resizeImageData imageData targetWidth targetHeight ! (4 * j + 0))) / 255)
    \<and> tensor_data (imageDataToTensor_part_000 resizeImageData imageData targetWidth targetHeight)
          ! (1 * (targetWidth * targetHeight) + j)
        = Num (real (unat (resizeImageData imageData targetWidth targetHeight ! (4 * j + 1))) / 255)
    \<and> tensor_data (imageDataToTensor_part_000 resizeImageData imageData targetWidth targetHeight)
          ! (2 * (targetWidth * targetHeight) + j)
        = Num (real (unat (resizeImageData imageData targetWidth targetHeight ! (4 * j + 2))) / 255)
    \<and> dims (imageDataToTensor_part_000 resizeImageData imageData targetWidth targetHeight)
        = [1, 3, targetHeight, targetWidth]"
proof -
  have planes: "convert_pixels buf n 0 (Float32Array (3 * n)) ! (n * c + k)
      = Num (real (unat (buf ! (k * 4 + c))) / 255)"
    if "length buf = 4 * n" and "k < n" and "c < 3" for buf n k c
  proof -
    have len: "length (Float32Array (3 * n)) = 3 * n" by (rule Float32Array_length)
    have "k * 4 + c < length buf" using that by linarith
    then show ?thesis
      using convert_pixels_nth [OF len that(3) that(2), of buf 0]
      by (simp add: read_index_def div_255_def)
  qed
  let ?n = "width image' * height image'"
  let ?m = "targetWidth * targetHeight"
  let ?r = "resizeImageData imageData targetWidth targetHeight"
  have t_main: "tensor_data (imageDataToTensor image')
      = convert_pixels (data image') ?n 0 (Float32Array (3 * ?n))"
    by (rule tensor_data_imageDataToTensor)
  have t_part: "tensor_data (imageDataToTensor_part_000 resizeImageData imageData targetWidth targetHeight)
      = convert_pixels ?r ?m 0 (Float32Array (3 * ?m))"
    by (simp add: imageDataToTensor_part_000_def Let_def)
  have "length (tensor_data (imageDataToTensor image')) = 3 * ?n"
    unfolding t_main by (simp add: Float32Array_length)
  moreover have "tensor_data (imageDataToTensor image') ! (0 * ?n + i)
      = Num (real (unat (data image' ! (4 * i + 0))) / 255)"
    unfolding t_main using planes [OF assms(1,2), of 0] by (simp add: mult.commute)
  moreover have "tensor_data (imageDataToTensor image') ! (1 * ?n + i)
      = Num (real (unat (data image' ! (4 * i + 1))) / 255)"
    unfolding t_main using planes [OF assms(1,2), of 1] by (simp add: mult.commute)
  moreover have "tensor_data (imageDataToTensor image') ! (2 * ?n + i)
      = Num (real (unat (data image' ! (4 * i + 2))) / 255)"
    unfolding t_main using planes [OF assms(1,2), of 2] by (simp add: mult.commute)
  moreover have "dims (imageDataToTensor image') = [1, 3, height image', width image']"
    by (simp add: imageDataToTensor_def Let_def)
  moreover have "tensor_data (imageDataToTensor
          \<lparr>data = [255, 0, 0, 255, 0, 255, 0, 255, 0, 0, 255, 255, 255, 255, 255, 255],
           width = 2, height = 2\<rparr>)
        = [Num 1, Num 0, Num 0, Num 1, Num 0, Num 1, Num 0, Num 1, Num 0, Num 0, Num 1, Num 1]"
    by code_simp
  moreover have "length (tensor_data
      (imageDataToTensor_part_000 resizeImageData imageData targetWidth targetHeight)) = 3 * ?m"
    unfolding t_part by (simp add: Float32Array_length)
  moreover have "tensor_data (imageDataToTensor_part_000 resizeImageData imageData targetWidth targetHeight)
        ! (0 * ?m + j) = Num (real (unat (?r ! (4 * j + 0))) / 255)"
    unfolding t_part using planes [OF assms(3,4), of 0] by (simp add: mult.commute)
  moreover have "tensor_data (imageDataToTensor_part_000 resizeImageData imageData targetWidth targetHeight)
        ! (1 * ?m + j) = Num (real (unat (?r ! (4 * j + 1))) / 255)"
    unfolding t_part using planes [OF assms(3,4), of 1] by (simp add: mult.commute)
  moreover have "tensor_data (imageDataToTensor_part_000 resizeImageData imageData targetWidth targetHeight)
        ! (2 * ?m + j) = Num (real (unat (?r ! (4 * j + 2))) / 255)"
    unfolding t_part using planes [OF assms(3,4), of 2] by (simp add: mult.commute)
  moreover have "dims (imageDataToTensor_part_000 resizeImageData imageData targetWidth targetHeight)
      = [1, 3, targetHeight, targetWidth]"
    by (simp add: imageDataToTensor_part_000_def Let_def)
  ultimately show ?thesis by blast
qed

text \<open>
  An instance: a 2 by 1 image of a red and a cyan pixel, both opaque, and for part_000 a
  canvas of the same size that hands these pixels back.
\<close>

theorem imageDataToTensor_planar_witness:
  "length [255, 0, 0, 255, 0, 255, 255, 255 :: 8 word] = 4 * (2 * 1) \<and> (1 :: nat) < 2 * 1
   \<and> length (tensor_data (imageDataToTensor
        \<lparr>data = [255, 0, 0, 255, 0, 255, 255, 255], width = 2, height = 1\<rparr>)) = 6
   \<and> tensor_data (imageDataToTensor
        \<lparr>data = [255, 0, 0, 255, 0, 255, 255, 255], width = 2, height = 1\<rparr>) ! 1 = Num 0
   \<and> tensor_data (imageDataToTensor
        \<lparr>data = [255, 0, 0, 255, 0, 255, 255, 255], width = 2, height = 1\<rparr>) ! 3 = Num 1
   \<and> tensor_data (imageDataToTensor
        \<lparr>data = [255, 0, 0, 255, 0, 255, 255, 255], width = 2, height = 1\<rparr>) ! 5 = Num 1
   \<and> length (tensor_data (imageDataToTensor_part_000
        (\<lambda>imageData targetWidth targetHeight. data imageData)
        \<lparr>data = [255, 0, 0, 255, 0, 255, 255, 255], width = 2, height = 1\<rparr> 2 1)) = 6
   \<and> tensor_data (imageDataToTensor_part_000
        (\<lambda>imageData targetWidth targetHeight. data imageData)
        \<lparr>data = [255, 0, 0, 255, 0, 255, 255, 255], width = 2, height = 1\<rparr> 2 1) ! 1 = Num 0
   \<and> tensor_data (imageDataToTensor_part_000
        (\<lambda>imageData targetWidth targetHeight. data imageData)
        \<lparr>data = [255, 0, 0, 255, 0, 255, 255, 255], width = 2, height = 1\<rparr> 2 1) ! 3 = Num 1
   \<and> tensor_data (imageDataToTensor_part_000
        (\<lambda>imageData targetWidth targetHeight. data imageData)
        \<lparr>data = [255, 0, 0, 255, 0, 255, 255, 255], width = 2, height = 1\<rparr> 2 1) ! 5 = Num 1"
  using imageDataToTensor_planar
    [of "\<lparr>data = [255, 0, 0, 255, 0, 255, 255, 255], width = 2, height = 1\<rparr>" 1
        "\<lambda>imageData targetWidth targetHeight. data imageData"
        "\<lparr>data = [255, 0, 0, 255, 0, 255, 255, 255], width = 2, height = 1\<rparr>" 2 1 1]
  by simp

text \<open>
  Claim C3, as amended.  The preprocessor compares the length of the buffer with nothing
  and raises no error.  Whatever the length, the tensor has \<open>3 * pixelCount\<close> values; the
  value of channel \<open>c\<close> of pixel \<open>i\<close> is the byte at \<open>4 * i + c\<close> over 255 when the buffer
  reaches that far and \<^verbatim>\<open>NaN\<close> when it does not, and bytes from \<open>4 * pixelCount\<close> on are
  never read.
\<close>

theorem imageDataToTensor_no_size_check:
  assumes "c < 3" and "i < width image' * height image'"
  shows "length (tensor_data (imageDataToTensor image')) = 3 * (width image' * height image')
    \<and> tensor_data (imageDataToTensor image') ! (width image' * height image' * c + i)
        = (if i * 4 + c < length (data image')
           then Num (real (unat (data image' ! (i * 4 + c))) / 255) else NaN)"
proof -
  let ?n = "width image' * height image'"
  have len: "length (Float32Array (3 * ?n)) = 3 * ?n" by (rule Float32Array_length)
  show ?thesis
    unfolding tensor_data_imageDataToTensor
    using convert_pixels_nth [OF len assms, of "data image'" 0]
    by (simp add: read_index_def div_255_def Float32Array_length)
qed

theorem imageDataToTensor_no_size_check_witness:
  "(1 :: nat) < 3 \<and> (1 :: nat) < 2 * 1
   \<and> length (tensor_data (imageDataToTensor
        \<lparr>data = [255, 0, 0, 255, 255], width = 2, height = 1\<rparr>)) = 6
   \<and> \<not> (1 * 4 + 1 < length [255, 0, 0, 255, 255 :: 8 word])
   \<and> tensor_data (imageDataToTensor
        \<lparr>data = [255, 0, 0, 255, 255], width = 2, height = 1\<rparr>) ! 3 = NaN"
  using imageDataToTensor_no_size_check
    [of 1 1 "\<lparr>data = [255, 0, 0, 255, 255], width = 2, height = 1\<rparr>"]
  by simp

text \<open>
  Claim C3 as stated fails: for a 1 by 1 image whose buffer holds one byte instead of four,
  \<^verbatim>\<open>imageDataToTensor\<close> returns a tensor, with \<^verbatim>\<open>NaN\<close> for green and blue.
\<close>

theorem imageDataToTensor_short_buffer:
  "length [255 :: 8 word] \<noteq> 1 * 1 * 4
   \<and> imageDataToTensor \<lparr>data = [255], width = 1, height = 1\<rparr>
       = \<lparr>tensor_type = ''float32'', tensor_data = [Num 1, NaN, NaN], dims = [1, 3, 1, 1]\<rparr>"
  by (simp add: imageDataToTensor_def convert_pixels_planes read_index_def div_255_def)

subsection \<open>Top-K selection\<close>

text \<open>
  Sorting and slicing keep the elements they are given, and the pairs that are sorted are
  the probabilities with their positions.
\<close>

lemma set_insert_sorted [simp]: "set (insert_sorted compareFn a bs) = insert a (set bs)"
  by (induction bs) auto

lemma length_insert_sorted [simp]: "length (insert_sorted compareFn a bs) = Suc (length bs)"
  by (induction bs) simp_all

lemma set_Array_sort [simp]: "set (Array_sort compareFn xs) = set xs"
  by (induction xs) (simp_all add: Array_sort_def)

lemma length_Array_sort [simp]: "length (Array_sort compareFn xs) = length xs"
  by (induction xs) (simp_all add: Array_sort_def)

lemma set_slice0: "set (slice0 xs k) \<subseteq> set xs"
  by (auto simp: slice0_def dest: in_set_takeD)

lemma length_slice0: "0 \<le> k \<Longrightarrow> length (slice0 xs k) = min (nat k) (length xs)"
  by (simp add: slice0_def min.commute)

lemma set_map_from_pairs:
  "set (map_from i (\<lambda>prob index. (prob, index)) probs) = {(probs ! n, i + n) | n. n < length probs}"
proof (induction probs arbitrary: i)
  case Nil
  show ?case by simp
next
  case (Cons p ps)
  show ?case (is "?l = ?r")
  proof (rule set_eqI)
    fix x :: "'a \<times> nat"
    have "x \<in> ?l \<longleftrightarrow> x = (p, i) \<or> (\<exists>n. x = (ps ! n, Suc i + n) \<and> n < length ps)"
      by (auto simp: Cons.IH)
    also have "\<dots> \<longleftrightarrow> (\<exists>m. x = ((p # ps) ! m, i + m) \<and> m < length (p # ps))"
    proof
      assume "x = (p, i) \<or> (\<exists>n. x = (ps ! n, Suc i + n) \<and> n < length ps)"
      then show "\<exists>m. x = ((p # ps) ! m, i + m) \<and> m < length (p # ps)"
      proof
        assume "x = (p, i)"
        then have "x = ((p # ps) ! 0, i + 0) \<and> 0 < length (p # ps)" by simp
        then show ?thesis by blast
      next
        assume "\<exists>n. x = (ps ! n, Suc i + n) \<and> n < length ps"
        then obtain n where "x = (ps ! n, Suc i + n)" "n < length ps" by blast
        then have "x = ((p # ps) ! Suc n, i + Suc n) \<and> Suc n < length (p # ps)" by simp
        then show ?thesis by blast
      qed
    next
      assume "\<exists>m. x = ((p # ps) ! m, i + m) \<and> m < length (p # ps)"
      then obtain m where m: "x = ((p # ps) ! m, i + m)" "m < length (p # ps)" by blast
      show "x = (p, i) \<or> (\<exists>n. x = (ps ! n, Suc i + n) \<and> n < length ps)"
      proof (cases m)
        case 0
        with m show ?thesis by simp
      next
        case (Suc n)
        with m have "x = (ps ! n, Suc i + n) \<and> n < length ps" by simp
        then show ?thesis by blast
      qed
    qed
    finally show "x \<in> ?l \<longleftrightarrow> x \<in> ?r" by simp
  qed
qed

lemma in_Array_map_pairs:
  "(p, n) \<in> set (Array_map (\<lambda>prob index. (prob, index)) probs)
     \<longleftrightarrow> n < length probs \<and> p = probs ! n"
  by (auto simp: Array_map_def set_map_from_pairs)

text \<open>
  The result of \<^verbatim>\<open>getTopK\<close>: the stable sort by descending probability leaves equal
  probabilities in ascending order of index, the slice keeps a prefix, and the name is the
  label of the table or the synthesized one, with spaces for underscores.
\<close>

lemma insert_sorted_ranked:
  assumes "sorted_wrt (\<lambda>a b. fst b < fst a \<or> (fst a = fst b \<and> snd a < snd b)) bs"
    and "\<forall>b \<in> set bs. snd a < snd b"
  shows "sorted_wrt (\<lambda>a b. fst b < fst a \<or> (fst a = fst b \<and> snd a < (snd b :: nat)))
           (insert_sorted (\<lambda>a b. fst b - fst a) a bs)"
  using assms
proof (induction bs)
  case Nil
  show ?case by simp
next
  case (Cons b bs)
  show ?case
  proof (cases "fst b - fst a \<le> 0")
    case True
    have "fst c < fst a \<or> (fst a = fst c \<and> snd a < snd c)" if "c \<in> set (b # bs)" for c
    proof -
      from that Cons.prems(1) have "fst c \<le> fst b" by auto
      with True have "fst c \<le> fst a" by simp
      moreover from that Cons.prems(2) have "snd a < snd c" by auto
      ultimately show ?thesis by auto
    qed
    with True Cons.prems(1) show ?thesis by simp
  next
    case False
    have "sorted_wrt (\<lambda>a b. fst b < fst a \<or> (fst a = fst b \<and> snd a < snd b))
            (insert_sorted (\<lambda>a b. fst b - fst a) a bs)"
      using Cons.IH Cons.prems by simp
    with False Cons.prems(1) show ?thesis by auto
  qed
qed

lemma snd_map_from_pairs:
  "x \<in> set (map_from i (\<lambda>prob index. (prob, index)) probs) \<Longrightarrow> i \<le> snd x"
  by (auto simp: set_map_from_pairs)

lemma Array_sort_pairs_ranked:
  "sorted_wrt (\<lambda>a b. fst b < fst a \<or> (fst a = fst b \<and> snd a < snd b))
     (Array_sort (\<lambda>a b. fst b - fst a) (map_from i (\<lambda>prob index. (prob, index)) probs))"
proof (induction probs arbitrary: i)
  case Nil
  show ?case by (simp add: Array_sort_def)
next
  case (Cons p ps)
  have "\<forall>b \<in> set (Array_sort (\<lambda>a b. fst b - fst a) (map_from (Suc i) (\<lambda>prob index. (prob, index)) ps)).
          snd (p, i) < snd b"
    using snd_map_from_pairs [of _ "Suc i" ps] by fastforce
  from insert_sorted_ranked [OF Cons.IH [of "Suc i"] this]
  show ?case by (simp add: Array_sort_def)
qed

lemma getTopK_length:
  "0 \<le> k \<Longrightarrow> length (getTopK classProbabilities k) = min (nat k) (length classProbabilities)"
  by (simp add: getTopK_def Let_def length_slice0 Array_map_def)

lemma getTopK_all_when_k_large:
  "int (length classProbabilities) \<le> k \<Longrightarrow> length (getTopK classProbabilities k) = length classProbabilities"
  by (simp add: getTopK_length)

lemma getTopK_ranked:
  "sorted_wrt (\<lambda>r s. probability s < probability r \<or> (probability r = probability s \<and> id' r < id' s))
     (getTopK classProbabilities k)"
proof -
  have "sorted_wrt (\<lambda>a b. fst b < fst a \<or> (fst a = fst b \<and> snd a < snd b))
     (slice0 (Array_sort (\<lambda>a b. fst b - fst a)
        (Array_map (\<lambda>prob index. (prob, index)) classProbabilities)) k)"
    unfolding slice0_def Array_map_def
    using Array_sort_pairs_ranked [of 0 classProbabilities] by (simp add: sorted_wrt_take)
  then show ?thesis
    by (simp add: getTopK_def Let_def sorted_wrt_map case_prod_beta)
qed

lemma getTopK_name:
  assumes "r \<in> set (getTopK classProbabilities k)"
  shows "name r = replace_underscores
           (case read_index imagenetClasses (id' r) of
              Some entry \<Rightarrow> snd entry
            | None \<Rightarrow> ''class_'' @ toString (id' r))"
  using assms by (auto simp: getTopK_def Let_def split: option.split)


text \<open>
  The result of \<^verbatim>\<open>imagenetClassesTopK\<close>: the call throws exactly when one of the
  selected indices has no entry in the table; when it returns, the probabilities do not
  increase, and equal probabilities come in descending order of index, since the reversal
  of the ascending stable sort reverses them as well.
\<close>

lemma insert_sorted_ascending:
  assumes "sorted_wrt (\<lambda>a b. fst a < fst b \<or> (fst a = fst b \<and> snd a < snd b)) bs"
    and "\<forall>b \<in> set bs. snd a < snd b"
  shows "sorted_wrt (\<lambda>a b. fst a < fst b \<or> (fst a = fst b \<and> snd a < (snd b :: nat)))
           (insert_sorted (\<lambda>a b. fst a - fst b) a bs)"
  using assms
proof (induction bs)
  case Nil
  show ?case by simp
next
  case (Cons b bs)
  show ?case
  proof (cases "fst a - fst b \<le> 0")
    case True
    have "fst a < fst c \<or> (fst a = fst c \<and> snd a < snd c)" if "c \<in> set (b # bs)" for c
    proof -
      from that Cons.prems(1) have "fst b \<le> fst c" by auto
      with True have "fst a \<le> fst c" by simp
      moreover from that Cons.prems(2) have "snd a < snd c" by auto
      ultimately show ?thesis by auto
    qed
    with True Cons.prems(1) show ?thesis by simp
  next
    case False
    have "sorted_wrt (\<lambda>a b. fst a < fst b \<or> (fst a = fst b \<and> snd a < snd b))
            (insert_sorted (\<lambda>a b. fst a - fst b) a bs)"
      using Cons.IH Cons.prems by simp
    with False Cons.prems(1) show ?thesis by auto
  qed
qed

lemma sortBy_pairs_ascending:
  "sorted_wrt (\<lambda>a b. fst a < fst b \<or> (fst a = fst b \<and> snd a < snd b))
     (sortBy (map_from i (\<lambda>prob index. (prob, index)) probs) (\<lambda>probIndex. fst probIndex))"
proof (induction probs arbitrary: i)
  case Nil
  show ?case by (simp add: sortBy_def Array_sort_def)
next
  case (Cons p ps)
  have "\<forall>b \<in> set (Array_sort (\<lambda>a b. fst a - fst b) (map_from (Suc i) (\<lambda>prob index. (prob, index)) ps)).
          snd (p, i) < snd b"
    using snd_map_from_pairs [of _ "Suc i" ps] by fastforce
  from insert_sorted_ascending [OF Cons.IH [of "Suc i", unfolded sortBy_def] this]
  show ?case by (simp add: sortBy_def Array_sort_def)
qed

lemma map_throwing_Inr:
  "map_throwing f xs = Inr ys \<Longrightarrow> list_all2 (\<lambda>x y. f x = Inr y) xs ys"
proof (induction xs arbitrary: ys)
  case Nil
  then show ?case by simp
next
  case (Cons x xs)
  then show ?case by (auto split: sum.splits)
qed

lemma sorted_wrt_list_all2:
  assumes "list_all2 Q xs ys" and "sorted_wrt R xs"
    and "\<And>x x' y y'. Q x y \<Longrightarrow> Q x' y' \<Longrightarrow> R x x' \<Longrightarrow> S y y'"
  shows "sorted_wrt S ys"
  using assms(1,2)
proof (induction rule: list_all2_induct)
  case Nil
  show ?case by simp
next
  case (Cons x xs y ys)
  have "S y y'" if "y' \<in> set ys" for y'
  proof -
    from that Cons.hyps(2) obtain x' where "x' \<in> set xs" "Q x' y'"
      by (metis in_set_conv_nth list_all2_conv_all_nth)
    with Cons.prems Cons.hyps(1) assms(3) show ?thesis by auto
  qed
  with Cons show ?case by simp
qed

lemma imagenetClassesTopK_ranked:
  assumes "imagenetClassesTopK classes classProbabilities k = Inr rs"
  shows "sorted_wrt (\<lambda>r s. probability s < probability r
            \<or> (probability r = probability s \<and> index s < index r)) rs"
proof -
  let ?sel = "take_lodash (reverse (sortBy (Array_map (\<lambda>prob index. (prob, index)) classProbabilities)
                     (\<lambda>probIndex. fst probIndex))) k"
  let ?R = "\<lambda>a b. fst b < fst a \<or> (fst b = fst a \<and> snd b < (snd a :: nat))"
  have srt: "sorted_wrt ?R ?sel"
    unfolding take_lodash_def reverse_def Array_map_def
    using sortBy_pairs_ascending [of 0 classProbabilities]
    by (simp add: sorted_wrt_take sorted_wrt_rev)
  from assms have "list_all2 (\<lambda>x y. (case classes (snd x) of
                None \<Rightarrow> Inl TypeError
              | Some iClass \<Rightarrow>
                  Inr \<lparr>id' = fst iClass,
                       name = replace_underscores (snd iClass),
                       probability = fst x,
                       index = snd x\<rparr>) = Inr y) ?sel rs"
    unfolding imagenetClassesTopK_def Let_def by (rule map_throwing_Inr)
  then show ?thesis
    using srt by (rule sorted_wrt_list_all2) (auto split: option.splits)
qed

lemma map_throwing_throws_iff:
  "map_throwing f xs = Inl TypeError \<longleftrightarrow> (\<exists>x \<in> set xs. f x = Inl TypeError)"
proof (induction xs)
  case Nil
  show ?case by simp
next
  case (Cons x xs)
  show ?case
  proof (cases "f x")
    case (Inl e)
    then have "f x = Inl TypeError" by (cases e) simp
    then show ?thesis by simp
  next
    case (Inr y)
    show ?thesis
    proof (cases "map_throwing f xs")
      case (Inl e)
      then have "map_throwing f xs = Inl TypeError" by (cases e) simp
      with Inr Cons.IH show ?thesis by simp
    next
      case (Inr ys)
      with \<open>f x = Inr y\<close> Cons.IH show ?thesis by simp
    qed
  qed
qed

lemma imagenetClassesTopK_throws_iff:
  "imagenetClassesTopK classes classProbabilities k = Inl TypeError \<longleftrightarrow>
     (\<exists>x \<in> set (take_lodash (reverse (sortBy (Array_map (\<lambda>prob index. (prob, index)) classProbabilities)
                     (\<lambda>probIndex. fst probIndex))) k). classes (snd x) = None)"
proof -
  have "(case classes (snd x) of
           None \<Rightarrow> Inl TypeError
         | Some iClass \<Rightarrow>
             Inr \<lparr>id' = fst iClass, name = replace_underscores (snd iClass),
                  probability = fst x, index = snd x\<rparr>) = Inl TypeError
       \<longleftrightarrow> classes (snd x) = None"
    for x :: "real \<times> nat"
    by (cases "classes (snd x)") simp_all
  then show ?thesis
    unfolding imagenetClassesTopK_def Let_def map_throwing_throws_iff by simp
qed


lemma imagenetClassesTopK_length:
  assumes "imagenetClassesTopK classes classProbabilities k = Inr rs"
  shows "length rs = min (nat k) (length classProbabilities)"
proof -
  from assms have "list_all2 (\<lambda>x y. (case classes (snd x) of
                None \<Rightarrow> Inl TypeError
              | Some iClass \<Rightarrow>
                  Inr \<lparr>id' = fst iClass,
                       name = replace_underscores (snd iClass),
                       probability = fst x,
                       index = snd x\<rparr>) = Inr y)
      (take_lodash (reverse (sortBy (Array_map (\<lambda>prob index. (prob, index)) classProbabilities)
         (\<lambda>probIndex. fst probIndex))) k) rs"
    unfolding imagenetClassesTopK_def Let_def by (rule map_throwing_Inr)
  then have "length rs = length (take_lodash (reverse
      (sortBy (Array_map (\<lambda>prob index. (prob, index)) classProbabilities)
         (\<lambda>probIndex. fst probIndex))) k)"
    by (simp add: list_all2_lengthD)
  then show ?thesis
    by (simp add: take_lodash_def reverse_def sortBy_def Array_map_def min.commute)
qed


text \<open>
  Claim C10.  Every record that \<^verbatim>\<open>getTopK\<close> returns, for any probabilities and any
  \<open>k\<close>, has an \<^verbatim>\<open>id\<close> that is a position of the input and a \<^verbatim>\<open>probability\<close> that is
  the input's element at that position.
\<close>

theorem getTopK_consistent:
  assumes "r \<in> set (getTopK classProbabilities k)"
  shows "id' r < length classProbabilities \<and> probability r = classProbabilities ! id' r"
proof -
  from assms obtain p n where
    sel: "(p, n) \<in> set (slice0 (Array_sort (\<lambda>a b. fst b - fst a)
             (Array_map (\<lambda>prob index. (prob, index)) classProbabilities)) k)"
    and r: "id' r = n" "probability r = p"
    by (auto simp: getTopK_def Let_def)
  from sel set_slice0 have "(p, n) \<in> set (Array_map (\<lambda>prob index. (prob, index)) classProbabilities)"
    by fastforce
  then show ?thesis
    unfolding r by (simp add: in_Array_map_pairs)
qed

theorem getTopK_consistent_witness:
  "\<lparr>id' = 2, name = ''great white shark'', probability = 2 / 10\<rparr> \<in> set (getTopK [1 / 10, 7 / 10, 2 / 10] 2)
   \<and> id' \<lparr>id' = 2 :: nat, name = ''great white shark'', probability = 2 / 10\<rparr> < length [1 / 10, 7 / 10, 2 / 10 :: real]
   \<and> probability \<lparr>id' = 2 :: nat, name = ''great white shark'', probability = 2 / 10\<rparr> = [1 / 10, 7 / 10, 2 / 10] ! 2"
proof -
  have g: "getTopK [1 / 10, 7 / 10, 2 / 10] 2 =
      [\<lparr>id' = 1, name = ''goldfish'', probability = 7 / 10\<rparr>,
       \<lparr>id' = 2, name = ''great white shark'', probability = 2 / 10\<rparr>]"
    by (simp add: getTopK_def Array_map_def Array_sort_def slice0_def read_index_def
        imagenetClasses_def replace_underscores_def)
  have m: "\<lparr>id' = 2, name = ''great white shark'', probability = 2 / 10\<rparr>
      \<in> set (getTopK [1 / 10, 7 / 10, 2 / 10] 2)"
    unfolding g by simp
  from m getTopK_consistent [OF m] show ?thesis by simp
qed

text \<open>
  Claim C2, the defect in main.js.  \<^verbatim>\<open>imagenetClassesTopK\<close> sorts ascending and then
  reverses, which also reverses the elements that are tied (lemma
  \<open>imagenetClassesTopK_ranked\<close>): on two equal probabilities it returns index 1 before
  index 0.  \<^verbatim>\<open>getTopK\<close> returns index 0 first, as the claim says (lemmas
  \<open>getTopK_ranked\<close> and \<open>getTopK_length\<close> for all inputs).
\<close>

theorem imagenetClassesTopK_ties_reversed:
  "imagenetClassesTopK (read_index imagenetClasses) [1 / 2, 1 / 2] 2
     = Inr [\<lparr>id' = 1, name = ''goldfish'', probability = 1 / 2, index = 1\<rparr>,
            \<lparr>id' = 0, name = ''tench'', probability = 1 / 2, index = 0\<rparr>]
   \<and> getTopK [1 / 2, 1 / 2] 2
     = [\<lparr>id' = 0, name = ''tench'', probability = 1 / 2\<rparr>,
        \<lparr>id' = 1, name = ''goldfish'', probability = 1 / 2\<rparr>]"
  by (simp add: imagenetClassesTopK_def getTopK_def Array_map_def sortBy_def Array_sort_def
      reverse_def take_lodash_def slice0_def read_index_def imagenetClasses_def
      replace_underscores_def)

text \<open>
  Claim C6, the defect in main.js.  With the table of the repository and twenty-one
  probabilities of which the last is the largest, \<^verbatim>\<open>imagenetClassesTopK\<close> finds no entry
  for index 20 and throws (lemma \<open>imagenetClassesTopK_throws_iff\<close>), where \<^verbatim>\<open>getTopK\<close>
  synthesizes the name (lemma \<open>getTopK_name\<close> for all inputs).
\<close>

theorem imagenetClassesTopK_missing_label_throws:
  "imagenetClassesTopK (read_index imagenetClasses) (replicate 20 0 @ [1]) 1 = Inl TypeError
   \<and> getTopK (replicate 20 0 @ [1]) 1 = [\<lparr>id' = 20, name = ''class 20'', probability = 1\<rparr>]"
  by code_simp

subsection \<open>Rounding to binary64\<close>

text \<open>
  A sum absorbs a term that is small against the other: \<open>1 + 2 ^ 53\<close> lies half-way
  between two binary64 numbers and is rounded to the even one, \<open>2 ^ 53\<close>.
\<close>

lemma binary64_add_absorbs:
  "binary64_add 0 (2 ^ 53) = Some (2 ^ 53) \<and> binary64_add 1 (2 ^ 53) = Some (2 ^ 53)"
  by (simp add: binary64_add_def round_binary64_def binary64_exponent_def exponent_up.simps
      round_half_even_def Let_def)

lemma exp_minus_one_ne_half: "exp (- 1 :: real) / (exp (- 1) + 1) \<noteq> 1 / 2"
proof -
  have "exp (- 1 :: real) < 1" by simp
  then show ?thesis by (simp add: field_simps)
qed

text \<open>
  A positive number below half of the least positive binary64 number, \<open>2 ^ - 1074\<close>, is
  rounded to zero.  The exponential of \<open>- 2000\<close> is such a number: its binary64 value is
  \<open>0\<close>, and \<open>0\<close> is the probability that the scripts give to a score that lies 2000 below
  the largest one, where the exact quotient is positive.
\<close>

lemma exponent_down_least:
  "n = nat (e + 1022) \<Longrightarrow> - 1022 \<le> e \<Longrightarrow> 0 \<le> y \<Longrightarrow> y * 2 ^ n < 1
     \<Longrightarrow> exponent_down y e = - 1022"
proof (induction n arbitrary: y e)
  case 0
  then have "e = - 1022" by simp
  then show ?case by (subst exponent_down.simps) simp
next
  case (Suc n)
  then have e: "- 1022 < e" and n: "n = nat (e - 1 + 1022)" by linarith+
  have "(1 :: real) \<le> 2 ^ Suc n" by (rule one_le_power) simp
  then have "y * 1 \<le> y * 2 ^ Suc n"
    using \<open>0 \<le> y\<close> by (rule mult_left_mono)
  with Suc.prems(4) have y: "y < 1" by simp
  have "exponent_down (y * 2) (e - 1) = - 1022"
    using Suc.IH [OF n] e Suc.prems(3,4) by (simp add: mult.assoc)
  with e y show ?case by (subst exponent_down.simps) simp
qed

lemma round_binary64_below_half_least:
  assumes "0 < x" and "x * 2 ^ (n + 52) < 1 / 2" and "n = 1022"
  shows "round_binary64 x = Some 0"
proof -
  have split: "x * 2 ^ (n + 52) = x * 2 ^ n * 2 ^ 52"
    by (simp only: power_add mult.assoc)
  have "(1 :: real) \<le> 2 ^ 52" by (rule one_le_power) simp
  moreover have "0 \<le> x * 2 ^ n" using assms(1) by simp
  ultimately have "x * 2 ^ n * 1 \<le> x * 2 ^ n * 2 ^ 52" by (rule mult_left_mono)
  with assms(2) have xn: "x * 2 ^ n < 1" unfolding split by linarith
  have "(1 :: real) \<le> 2 ^ n" by (rule one_le_power) simp
  then have "x * 1 \<le> x * 2 ^ n" using assms(1) by (intro mult_left_mono) simp_all
  with xn have lt1: "x < 1" by linarith
  have "exponent_down x 0 = - 1022"
    using assms(1,3) xn by (intro exponent_down_least [where n = n]) simp_all
  then have ex: "binary64_exponent x = - int n"
    using lt1 assms(1,3) by (simp add: binary64_exponent_def)
  have "- int n - 52 = - int (n + 52)" by simp
  then have "(2 :: real) powi (- int n - 52) = inverse (2 ^ (n + 52))"
    by (simp only: power_int_minus power_int_of_nat)
  then have q: "x / 2 powi (- int n - 52) = x * 2 ^ (n + 52)"
    by (simp only: divide_inverse inverse_inverse_eq)
  have "0 \<le> x * 2 ^ (n + 52)" using assms(1) by simp
  with assms(2) have fl: "\<lfloor>x * 2 ^ (n + 52)\<rfloor> = 0" by linarith
  have r: "round_half_even (x * 2 ^ (n + 52)) = 0"
    using assms(2) unfolding round_half_even_def fl Let_def by simp
  have big: "\<bar>0 :: real\<bar> < 2 ^ 1024" by (simp only: abs_zero) (rule zero_less_power, simp)
  show ?thesis
    unfolding round_binary64_def ex Let_def q r
    using assms(1) big by (simp only: of_int_0 mult_zero_left if_True) simp
qed

lemma exp_2000_lower: "(2 :: real) ^ 2000 \<le> exp 2000"
proof -
  have "(2 :: real) \<le> exp 1"
    using exp_ge_add_one_self [of "1 :: real"] by simp
  then have "(2 :: real) ^ 2000 \<le> exp 1 ^ 2000"
    by (intro power_mono) simp_all
  also have "exp (1 :: real) ^ 2000 = exp (of_nat 2000 * 1)"
    by (rule exp_of_nat_mult [symmetric])
  also have "\<dots> = exp 2000" by simp
  finally show ?thesis .
qed

lemma round_binary64_exp_underflow: "round_binary64 (exp (- 2000)) = Some 0"
proof (rule round_binary64_below_half_least [where n = 1022])
  show "0 < exp (- 2000 :: real)" by simp
  show "(1022 :: nat) = 1022" ..
  have "(2 :: real) ^ (1022 + 52) * 2 ^ 1 = 2 ^ (1022 + 52 + 1)"
    by (rule power_add [symmetric])
  also have "\<dots> < 2 ^ 2000" by (rule power_strict_increasing) simp_all
  also have "\<dots> \<le> exp 2000" by (rule exp_2000_lower)
  finally have "(2 :: real) ^ (1022 + 52) * 2 ^ 1 < exp 2000" .
  then have "(2 :: real) ^ (1022 + 52) * 2 < exp 2000" by (simp only: power_one_right)
  moreover have "b * inverse a < 1 / 2" if "b * 2 < a" "0 < a" for a b :: real
    using that by (simp add: field_simps)
  ultimately have "(2 :: real) ^ (1022 + 52) * inverse (exp 2000) < 1 / 2"
    by (metis exp_gt_zero)
  then show "exp (- 2000 :: real) * 2 ^ (1022 + 52) < 1 / 2"
    by (simp only: exp_minus mult.commute)
qed

subsection \<open>Softmax\<close>

text \<open>
  On a non-empty vector the two folds of the script are the maximum and the sum of the
  list, which gives \<^verbatim>\<open>softmax\<close> in closed form.
\<close>

lemma softmax_nonempty:
  assumes "resultArray \<noteq> []"
  shows "softmax resultArray =
    Inr (map (\<lambda>v. exp (v - Max (set resultArray)) / (\<Sum>x\<leftarrow>resultArray. exp (x - Max (set resultArray)))) resultArray)"
proof -
  from assms obtain r rs where xs: "resultArray = r # rs" by (cases resultArray) auto
  have m: "Math_max r rs = Max (set resultArray)"
    unfolding Math_max_def xs by (rule foldl_max_eq_Max)
  show ?thesis
    unfolding softmax_def Array_map_def map_from_conv_map
    using m by (simp add: xs foldl_plus_sum_list Let_def)
qed

lemma sum_exp_nonneg: "0 \<le> (\<Sum>x\<leftarrow>xs. exp (x - (m::real)))"
  by (induction xs) simp_all

lemma sum_exp_Cons:
  "(\<Sum>x\<leftarrow>a # as. exp (x - (m::real))) = exp (a - m) + (\<Sum>x\<leftarrow>as. exp (x - m))"
  by simp

lemma sum_exp_pos: "xs \<noteq> [] \<Longrightarrow> 0 < (\<Sum>x\<leftarrow>xs. exp (x - (m::real)))"
proof (cases xs)
  case Nil
  assume "xs \<noteq> []"
  with Nil show ?thesis by simp
next
  case (Cons a as)
  have "0 < exp (a - m)" by simp
  moreover have "0 \<le> (\<Sum>x\<leftarrow>as. exp (x - m))" by (rule sum_exp_nonneg)
  ultimately have "0 < exp (a - m) + (\<Sum>x\<leftarrow>as. exp (x - m))" by linarith
  then show ?thesis unfolding Cons sum_exp_Cons .
qed

lemma exp_le_sum_exp: "v \<in> set xs \<Longrightarrow> exp (v - (m::real)) \<le> (\<Sum>x\<leftarrow>xs. exp (x - m))"
proof (induction xs)
  case Nil
  then show ?case by simp
next
  case (Cons a xs)
  have nn: "0 \<le> (\<Sum>x\<leftarrow>xs. exp (x - m))" by (rule sum_exp_nonneg)
  show ?case
  proof (cases "v = a")
    case True
    with nn show ?thesis unfolding sum_exp_Cons by simp
  next
    case False
    with Cons have "exp (v - m) \<le> (\<Sum>x\<leftarrow>xs. exp (x - m))" by simp
    moreover have "0 < exp (a - m)" by simp
    ultimately show ?thesis unfolding sum_exp_Cons by linarith
  qed
qed

lemma exp_less_sum_exp:
  assumes "v \<in> set xs" and "2 \<le> length xs"
  shows "exp (v - (m::real)) < (\<Sum>x\<leftarrow>xs. exp (x - m))"
proof (cases xs)
  case Nil
  with assms show ?thesis by simp
next
  case (Cons a as)
  with assms have ne: "as \<noteq> []" by auto
  show ?thesis
  proof (cases "v = a")
    case True
    then show ?thesis using sum_exp_pos [OF ne, where m = m] unfolding Cons sum_exp_Cons by simp
  next
    case False
    then have "v \<in> set as" using assms Cons by simp
    then have "exp (v - m) \<le> (\<Sum>x\<leftarrow>as. exp (x - m))" by (rule exp_le_sum_exp)
    moreover have "0 < exp (a - m)" by simp
    moreover have "(\<Sum>x\<leftarrow>xs. exp (x - m)) = exp (a - m) + (\<Sum>x\<leftarrow>as. exp (x - m))"
      by (simp add: Cons)
    ultimately show ?thesis by linarith
  qed
qed


lemma Max_shift:
  assumes "xs \<noteq> []"
  shows "Max (set (map (\<lambda>x. x + c) xs)) = Max (set xs) + (c::real)"
proof -
  have "mono (\<lambda>x. x + c)" by (simp add: mono_def)
  then have "Max (set xs) + c = Max ((\<lambda>x. x + c) ` set xs)"
    using assms by (intro mono_Max_commute) simp_all
  then show ?thesis by simp
qed




text \<open>
  Claim C5, as amended.  In exact arithmetic, adding one constant \<open>c\<close> to every score
  leaves the result of \<^verbatim>\<open>softmax\<close> unchanged: here \<open>x + c\<close> is the exact sum.  On the
  empty vector both calls fail alike.
\<close>

theorem softmax_shift_invariant:
  "softmax (map (\<lambda>x. x + c) resultArray) = softmax resultArray"
proof (cases "resultArray = []")
  case True
  then show ?thesis by simp
next
  case False
  then have ne: "map (\<lambda>x. x + c) resultArray \<noteq> []" by simp
  show ?thesis
    unfolding softmax_nonempty [OF False] softmax_nonempty [OF ne] Max_shift [OF False]
    by (simp add: comp_def)
qed

text \<open>
  Claim C5 as stated fails on the numbers of the scripts, where the sum \<open>x + c\<close> is
  rounded.  With \<open>c = 2 ^ 53\<close> the scores \<open>0\<close> and \<open>1\<close> both become \<open>2 ^ 53\<close>, the
  softmax of which is \<open>[1/2, 1/2]\<close>, while \<open>softmax [0, 1]\<close> is not.
\<close>

theorem softmax_shift_absorbed:
  "binary64_add 0 (2 ^ 53) = Some (2 ^ 53) \<and> binary64_add 1 (2 ^ 53) = Some (2 ^ 53)
   \<and> softmax [2 ^ 53, 2 ^ 53] = Inr [1 / 2, 1 / 2]
   \<and> softmax [0, 1] = Inr [exp (- 1) / (exp (- 1) + 1), 1 / (exp (- 1) + 1)]
   \<and> exp (- 1 :: real) / (exp (- 1) + 1) \<noteq> 1 / 2"
proof -
  have "softmax [2 ^ 53, 2 ^ 53] = Inr [1 / 2, 1 / 2]"
    by (simp add: softmax_def Math_max_def Array_map_def)
  moreover have "softmax [0, 1] = Inr [exp (- 1) / (exp (- 1) + 1), 1 / (exp (- 1) + 1)]"
    by (simp add: softmax_def Math_max_def Array_map_def)
  ultimately show ?thesis
    using binary64_add_absorbs exp_minus_one_ne_half by simp
qed

text \<open>
  Claim C9.  \<^verbatim>\<open>softmax\<close> preserves the order of the scores: at any two positions \<open>i\<close>
  and \<open>j\<close> of a score vector, \<open>scores[i] \<le> scores[j]\<close> holds exactly when the same
  comparison holds between the two probabilities returned.
\<close>

theorem softmax_order_preserving:
  assumes "i < length scores" and "j < length scores"
  shows "\<exists>out. softmax scores = Inr out \<and> (scores ! i \<le> scores ! j \<longleftrightarrow> out ! i \<le> out ! j)"
proof -
  from assms have ne: "scores \<noteq> []" by auto
  have pos: "0 < (\<Sum>x\<leftarrow>scores. exp (x - Max (set scores)))"
    using ne by (rule sum_exp_pos)
  show ?thesis
    using pos assms unfolding softmax_nonempty [OF ne] by (simp add: divide_le_cancel)
qed

theorem softmax_order_preserving_witness:
  "(0::nat) < length [0, 1 :: real] \<and> (1::nat) < length [0, 1 :: real]
   \<and> softmax [0, 1] = Inr [exp (- 1) / (exp (- 1) + 1), 1 / (exp (- 1) + 1)]
   \<and> [0, 1 :: real] ! 0 \<le> [0, 1] ! 1
   \<and> [exp (- 1) / (exp (- 1) + 1), 1 / (exp (- 1) + 1 :: real)] ! 0
       \<le> [exp (- 1) / (exp (- 1) + 1), 1 / (exp (- 1) + 1)] ! 1"
proof -
  have s: "softmax [0, 1] = Inr [exp (- 1) / (exp (- 1) + 1), 1 / (exp (- 1) + 1)]"
    by (simp add: softmax_def Math_max_def Array_map_def)
  show ?thesis
    using softmax_order_preserving [of 0 "[0, 1]" 1] unfolding s by simp
qed

text \<open>
  Claim C7.  On the empty score sequence \<^verbatim>\<open>softmax\<close> returns no value: it fails with the
  \<^verbatim>\<open>TypeError\<close> that \<^verbatim>\<open>reduce\<close> raises on an empty array, which is the script's form
  of an invalid-input error.
\<close>

theorem softmax_empty_fails: "softmax [] = Inl TypeError"
  by (simp add: softmax_def)

text \<open>
  Claim C8.  The \<^verbatim>\<open>softmax\<close> of main.js and the \<^verbatim>\<open>softmax\<close> of part_000 return equal
  results on every score vector, the failure on the empty vector included.
\<close>

theorem softmax_part_000_eq_softmax: "softmax_part_000 resultArray = softmax resultArray"
  by (simp add: softmax_def softmax_part_000_def Array_map_def map_from_conv_map
      split: list.split)

end
